theory Spec2Isabelle
  imports Complex_Main "HOL-Library.Sublist"
begin

section \<open>Data model (types.ts)\<close>

text \<open>
  The interface \<open>VerseIdentification\<close> and the enumeration \<open>AppState\<close> of the
  types module. All five fields of an identification are TypeScript strings.
\<close>

record VerseIdentification =
  surahName :: string
  ayahNumber :: string
  transcription :: string
  translationEn :: string
  translationEs :: string

datatype AppState = IDLE | CONNECTING | LISTENING | ERROR

text \<open>
  The parts of a \<open>LiveServerMessage\<close> that \<open>onmessage\<close> reads. Every field of the
  vendor type is optional; an absent string is \<open>None\<close>, an absent flag is \<open>False\<close>.
  \<^item> \<open>inlineData\<close> is \<open>message.serverContent?.modelTurn?.parts?.[0]?.inlineData?.data\<close>;
  \<^item> \<open>interrupted\<close>, \<open>inputTranscription\<close> (its text) and \<open>turnComplete\<close> are the
    fields of \<open>message.serverContent\<close>;
  \<^item> \<open>toolCall\<close> is \<open>message.toolCall\<close>, given by its \<open>functionCalls\<close> (a tool
    call is taken to carry the list, as the loop over it expects).
  The arguments of a function call are cast to \<open>VerseIdentification\<close> without a check;
  the model takes them at that type.
\<close>

record FunctionCall =
  call_id :: string
  name :: string
  args :: VerseIdentification

record LiveServerMessage =
  inlineData :: "string option"
  interrupted :: bool
  inputTranscription :: "string option"
  toolCall :: "FunctionCall list option"
  turnComplete :: bool

section \<open>Component state (App.tsx, lines 11-26)\<close>

text \<open>
  The React state cells and refs of the component, followed by what the component does to
  its collaborators, kept as logs: which session handles and audio contexts had
  \<open>close()\<close> called on them, which sources were started (source, start time, buffer
  duration, in the order of the \<open>source.start\<close> calls), which sources had \<open>stop()\<close>
  called, which tool responses were sent. Sessions, contexts and sources are objects with
  an identity; they are numbered, and the two counters hand out fresh numbers for
  \<open>new AudioContext\<close> and \<open>ctx.createBufferSource()\<close>.

  \<open>onmessage\<close> is an async function: a run of it that reaches
  \<open>await decodeAudioData\<close> (line 92) is suspended there and other callbacks run before
  it goes on. \<open>pending\<close> holds the suspended runs, numbered by \<open>nextHandler\<close>, each
  with what it has captured: the payload \<open>base64Audio\<close> and the message.

  Times are JavaScript numbers. The model is polymorphic in the type \<open>'t\<close> of times and
  uses only its order, its \<open>+\<close> and its \<open>0\<close>, with no law connecting them, so nothing
  proved below depends on exact arithmetic; a NaN time is outside the model.

  The cells \<open>transcriptionBufferRef\<close> and \<open>lastVerseRef\<close> are written by the
  handlers and are kept. The cell \<open>transcriptions\<close> (only ever set to the empty list) and
  the audio graph wiring (gain node, script processor) have no effect on any cell below and
  are left out.
\<close>

record 't App =
  appState :: AppState
  verseHistory :: "VerseIdentification list"
  error :: "string option"
  isVerifyingSequence :: bool
  sessionRef :: "nat option"
  audioContextRef :: "nat option"
  outputAudioContextRef :: "nat option"
  nextStartTimeRef :: 't
  sourcesRef :: "nat set"
  transcriptionBufferRef :: "string \<times> string"
  lastVerseRef :: "(string \<times> string) option"
  closedSessions :: "nat set"
  closedContexts :: "nat set"
  scheduled :: "(nat \<times> 't \<times> 't) list"
  stoppedSources :: "nat set"
  toolResponses :: "(string \<times> string) list"
  nextContext :: nat
  nextSource :: nat
  pending :: "nat \<rightharpoonup> string \<times> LiveServerMessage"
  nextHandler :: nat

definition initialApp :: "('t::zero) App" where
  "initialApp =
     \<lparr> appState = IDLE, verseHistory = [], error = None, isVerifyingSequence = False,
       sessionRef = None, audioContextRef = None, outputAudioContextRef = None,
       nextStartTimeRef = 0, sourcesRef = {}, transcriptionBufferRef = ([], []),
       lastVerseRef = None, closedSessions = {}, closedContexts = {}, scheduled = [],
       stoppedSources = {}, toolResponses = [], nextContext = 0, nextSource = 0,
       pending = Map.empty, nextHandler = 0 \<rparr>"

section \<open>stopSession (lines 34-49)\<close>

definition closeSession :: "'t App \<Rightarrow> 't App" where
  "closeSession s =
     (case sessionRef s of
        None \<Rightarrow> s
      | Some h \<Rightarrow> s\<lparr>closedSessions := insert h (closedSessions s), sessionRef := None\<rparr>)"

definition closeAudioContext :: "'t App \<Rightarrow> 't App" where
  "closeAudioContext s =
     (case audioContextRef s of
        None \<Rightarrow> s
      | Some c \<Rightarrow> s\<lparr>closedContexts := insert c (closedContexts s), audioContextRef := None\<rparr>)"

definition closeOutputAudioContext :: "'t App \<Rightarrow> 't App" where
  "closeOutputAudioContext s =
     (case outputAudioContextRef s of
        None \<Rightarrow> s
      | Some c \<Rightarrow>
          s\<lparr>closedContexts := insert c (closedContexts s), outputAudioContextRef := None\<rparr>)"

definition stopSession :: "'t App \<Rightarrow> 't App" where
  "stopSession s =
     (closeOutputAudioContext (closeAudioContext (closeSession s)))
       \<lparr>appState := IDLE, isVerifyingSequence := False\<rparr>"

section \<open>startSession (lines 51-68 and 185-190)\<close>

text \<open>
  \<open>startSession\<close> is an async function with two awaits, so it runs in three pieces: up
  to \<open>await getUserMedia\<close>, from there to \<open>await sessionPromise\<close>, and the assignment
  of the session. Either await can reject; the rejection carries the message of the error
  (\<open>err.message\<close>, empty when it is missing) and runs the catch block.
\<close>

definition startSession_begin :: "'t App \<Rightarrow> 't App" where
  "startSession_begin s =
     s\<lparr>error := None, appState := CONNECTING, verseHistory := [], lastVerseRef := None,
       transcriptionBufferRef := ([], [])\<rparr>"

definition startSession_catch :: "string \<Rightarrow> 't App \<Rightarrow> 't App" where
  "startSession_catch message s =
     s\<lparr>error := Some (if message = [] then ''Failed to start session.'' else message),
       appState := IDLE\<rparr>"

definition startSession_gotMedia :: "string + unit \<Rightarrow> 't App \<Rightarrow> 't App" where
  "startSession_gotMedia r s =
     (case r of
        Inl message \<Rightarrow> startSession_catch message s
      | Inr _ \<Rightarrow>
          s\<lparr>audioContextRef := Some (nextContext s),
            outputAudioContextRef := Some (Suc (nextContext s)),
            nextContext := Suc (Suc (nextContext s))\<rparr>)"

definition startSession_connected :: "string + nat \<Rightarrow> 't App \<Rightarrow> 't App" where
  "startSession_connected r s =
     (case r of
        Inl message \<Rightarrow> startSession_catch message s
      | Inr session \<Rightarrow> s\<lparr>sessionRef := Some session\<rparr>)"

section \<open>The session callbacks (lines 71-143)\<close>

definition onopen :: "'t App \<Rightarrow> 't App" where
  "onopen s = s\<lparr>appState := LISTENING\<rparr>"

text \<open>Lines 102-106.\<close>

definition onInterrupted :: "LiveServerMessage \<Rightarrow> ('t::zero) App \<Rightarrow> 't App" where
  "onInterrupted message s =
     (if interrupted message
      then s\<lparr>stoppedSources := stoppedSources s \<union> sourcesRef s, sourcesRef := {},
             nextStartTimeRef := 0\<rparr>
      else s)"

text \<open>Lines 108-110.\<close>

definition onInputTranscription :: "LiveServerMessage \<Rightarrow> 't App \<Rightarrow> 't App" where
  "onInputTranscription message s =
     (case inputTranscription message of
        None \<Rightarrow> s
      | Some t \<Rightarrow>
          s\<lparr>transcriptionBufferRef :=
              (fst (transcriptionBufferRef s) @ t, snd (transcriptionBufferRef s))\<rparr>)"

text \<open>
  Lines 114-128: the body of the loop over the function calls. The updater passed to
  \<open>setVerseHistory\<close> runs on the latest history, so the calls of one message take effect
  one after the other.
\<close>

definition isDuplicate :: "VerseIdentification list \<Rightarrow> VerseIdentification \<Rightarrow> bool" where
  "isDuplicate prev result =
     list_ex (\<lambda>v. surahName v = surahName result \<and> ayahNumber v = ayahNumber result) prev"

definition appendVerse ::
  "VerseIdentification \<Rightarrow> VerseIdentification list \<Rightarrow> VerseIdentification list" where
  "appendVerse result prev = (if isDuplicate prev result then prev else prev @ [result])"

definition onFunctionCall :: "'t App \<Rightarrow> FunctionCall \<Rightarrow> 't App" where
  "onFunctionCall s fc =
     (if name fc = ''identifyQuranVerse''
      then s\<lparr>lastVerseRef := Some (surahName (args fc), ayahNumber (args fc)),
             isVerifyingSequence := True,
             verseHistory := appendVerse (args fc) (verseHistory s),
             toolResponses := toolResponses s @ [(call_id fc, name fc)]\<rparr>
      else s)"

text \<open>Lines 112-130.\<close>

definition onToolCall :: "LiveServerMessage \<Rightarrow> 't App \<Rightarrow> 't App" where
  "onToolCall message s =
     (case toolCall message of
        None \<Rightarrow> s
      | Some functionCalls \<Rightarrow> foldl onFunctionCall s functionCalls)"

text \<open>Lines 132-134.\<close>

definition onTurnComplete :: "LiveServerMessage \<Rightarrow> 't App \<Rightarrow> 't App" where
  "onTurnComplete message s =
     (if turnComplete message then s\<lparr>transcriptionBufferRef := ([], [])\<rparr> else s)"

text \<open>Lines 102-134: what the handler does after its audio part.\<close>

definition afterAudio :: "LiveServerMessage \<Rightarrow> ('t::zero) App \<Rightarrow> 't App" where
  "afterAudio message s =
     onTurnComplete message
       (onToolCall message (onInputTranscription message (onInterrupted message s)))"

text \<open>
  Lines 87-92: the handler up to its await. \<open>currentTime\<close> is what \<open>ctx.currentTime\<close>
  reads at line 91. When the message has a non-empty payload and the output context exists,
  line 91 raises the next-start time and the run is suspended at line 92. Otherwise the
  condition of line 89 fails, no await is reached and the run goes through lines 102-134
  at once.
\<close>

definition onmessage :: "'t \<Rightarrow> LiveServerMessage \<Rightarrow> ('t::{linorder,zero}) App \<Rightarrow> 't App" where
  "onmessage currentTime message s =
     (case inlineData message of
        None \<Rightarrow> afterAudio message s
      | Some base64Audio \<Rightarrow>
          if base64Audio = [] \<or> outputAudioContextRef s = None then afterAudio message s
          else s\<lparr>nextStartTimeRef := max (nextStartTimeRef s) currentTime,
                 pending := (pending s)(nextHandler s \<mapsto> (base64Audio, message)),
                 nextHandler := Suc (nextHandler s)\<rparr>)"

text \<open>
  Lines 93-99: a source for the decoded buffer is created, started at the value
  \<open>nextStartTimeRef.current\<close> has at that moment (line 97 reads the ref again), the ref
  is advanced by the duration of the buffer, and the source joins the set.
\<close>

definition playDecoded :: "'t \<Rightarrow> ('t::plus) App \<Rightarrow> 't App" where
  "playDecoded duration s =
     s\<lparr>scheduled := scheduled s @ [(nextSource s, nextStartTimeRef s, duration)],
       nextStartTimeRef := nextStartTimeRef s + duration,
       sourcesRef := insert (nextSource s) (sourcesRef s),
       nextSource := Suc (nextSource s)\<rparr>"

text \<open>
  The await of the suspended run \<open>k\<close> settles. \<open>decode\<close> and \<open>decodeAudioData\<close> live
  in the audio helpers module; the model takes them as the parameter \<open>decodeAudioData\<close>,
  which gives the duration of the decoded buffer, or \<open>None\<close> when decoding throws. A throw
  rejects the promise of the handler: the run ends there and lines 93-134 do not run for
  that message. Otherwise the run goes on with lines 93-99 and then lines 102-134.
\<close>

definition onDecodeSettled ::
  "(string \<Rightarrow> 't option) \<Rightarrow> nat \<Rightarrow> ('t::{plus,zero}) App \<Rightarrow> 't App" where
  "onDecodeSettled decodeAudioData k s =
     (case pending s k of
        None \<Rightarrow> s
      | Some (base64Audio, message) \<Rightarrow>
          (case decodeAudioData base64Audio of
             None \<Rightarrow> s\<lparr>pending := (pending s)(k := None)\<rparr>
           | Some duration \<Rightarrow>
               afterAudio message (playDecoded duration (s\<lparr>pending := (pending s)(k := None)\<rparr>))))"

text \<open>Lines 136-139 and 140-143.\<close>

definition onerror :: "'t App \<Rightarrow> 't App" where
  "onerror s =
     stopSession (s\<lparr>error := Some ''Stream error. This is often caused by network latency.''\<rparr>)"

definition onclose :: "'t App \<Rightarrow> 't App" where
  "onclose s = s\<lparr>appState := IDLE, isVerifyingSequence := False\<rparr>"

text \<open>Line 96: the listener of a source's \<open>ended\<close> event.\<close>

definition onended :: "nat \<Rightarrow> 't App \<Rightarrow> 't App" where
  "onended source s = s\<lparr>sourcesRef := sourcesRef s - {source}\<rparr>"

text \<open>
  Lines 206-207: the button runs \<open>startSession\<close> when the state is idle and
  \<open>stopSession\<close> otherwise, and is disabled while connecting.
\<close>

definition onClick :: "'t App \<Rightarrow> 't App" where
  "onClick s =
     (if appState s = CONNECTING then s
      else if appState s = IDLE then startSession_begin s
      else stopSession s)"

section \<open>Events\<close>

text \<open>
  Everything that can run a piece of the component: a click on the button, the two awaits
  of \<open>startSession\<close> settling, the four session callbacks, the await of a suspended
  run of \<open>onmessage\<close> settling, and a source ending. The code guards none of the
  callbacks by the state, so any event is accepted in any state, in any order.
\<close>

datatype 't Event =
    ButtonClick
  | GetUserMediaSettled "string + unit"
  | ConnectSettled "string + nat"
  | OnOpen
  | OnMessage 't LiveServerMessage
  | DecodeSettled nat
  | OnError
  | OnClose
  | SourceEnded nat

definition handle ::
  "(string \<Rightarrow> 't option) \<Rightarrow> ('t::{linorder,plus,zero}) App \<Rightarrow> 't Event \<Rightarrow> 't App" where
  "handle decodeAudioData s e =
     (case e of
        ButtonClick \<Rightarrow> onClick s
      | GetUserMediaSettled r \<Rightarrow> startSession_gotMedia r s
      | ConnectSettled r \<Rightarrow> startSession_connected r s
      | OnOpen \<Rightarrow> onopen s
      | OnMessage currentTime message \<Rightarrow> onmessage currentTime message s
      | DecodeSettled k \<Rightarrow> onDecodeSettled decodeAudioData k s
      | OnError \<Rightarrow> onerror s
      | OnClose \<Rightarrow> onclose s
      | SourceEnded source \<Rightarrow> onended source s)"

definition run ::
  "(string \<Rightarrow> 't option) \<Rightarrow> 't Event list \<Rightarrow> ('t::{linorder,plus,zero}) App \<Rightarrow> 't App" where
  "run decodeAudioData events s = foldl (handle decodeAudioData) s events"

section \<open>Properties\<close>

text \<open>No two entries of a history agree on both the surah name and the ayah number.\<close>

definition unique_verses :: "VerseIdentification list \<Rightarrow> bool" where
  "unique_verses vs = distinct (map (\<lambda>v. (surahName v, ayahNumber v)) vs)"

text \<open>
  A message names \<open>identifyQuranVerse\<close> when one of the function calls of its tool call
  has that name.
\<close>

definition namesIdentify :: "LiveServerMessage \<Rightarrow> bool" where
  "namesIdentify m =
     (case toolCall m of
        None \<Rightarrow> False
      | Some fcs \<Rightarrow> list_ex (\<lambda>fc. name fc = ''identifyQuranVerse'') fcs)"

text \<open>
  The condition of line 89: the run of the handler reaches the await. And the events
  that belong to a message naming \<open>identifyQuranVerse\<close>: its receipt, and the settling
  of the await of its suspended run.
\<close>

definition suspendsAtDecode :: "LiveServerMessage \<Rightarrow> 't App \<Rightarrow> bool" where
  "suspendsAtDecode m s =
     (case inlineData m of
        None \<Rightarrow> False
      | Some a \<Rightarrow> a \<noteq> [] \<and> outputAudioContextRef s \<noteq> None)"

definition isToolCallEvent :: "'t App \<Rightarrow> 't Event \<Rightarrow> bool" where
  "isToolCallEvent s e =
     (case e of
        OnMessage c m \<Rightarrow> namesIdentify m
      | DecodeSettled k \<Rightarrow> (case pending s k of None \<Rightarrow> False | Some (a, m) \<Rightarrow> namesIdentify m)
      | _ \<Rightarrow> False)"

text \<open>
  The events whose handler calls \<open>stopSession\<close>: a stream error, and a click on the
  button when it shows the stop action.
\<close>

definition stopsSession :: "'t App \<Rightarrow> 't Event \<Rightarrow> bool" where
  "stopsSession s e =
     (e = OnError \<or> (e = ButtonClick \<and> appState s \<noteq> IDLE \<and> appState s \<noteq> CONNECTING))"

text \<open>
  The transitions the specification allows, and the transitions the handlers make.
\<close>

definition claimed_edge :: "AppState \<Rightarrow> AppState \<Rightarrow> bool" where
  "claimed_edge a b =
     ((a = IDLE \<and> b = CONNECTING) \<or> (a = CONNECTING \<and> b = LISTENING) \<or>
      (a = LISTENING \<and> b = IDLE) \<or> (a = CONNECTING \<and> b = ERROR) \<or>
      (a = LISTENING \<and> b = ERROR))"

definition code_edge :: "AppState \<Rightarrow> AppState \<Rightarrow> bool" where
  "code_edge a b =
     ((a = IDLE \<and> b = CONNECTING) \<or> (a = CONNECTING \<and> b = LISTENING) \<or>
      (a = LISTENING \<and> b = IDLE) \<or> (a = CONNECTING \<and> b = IDLE) \<or>
      (a = IDLE \<and> b = LISTENING))"

text \<open>
  An entry of the start log is a source with its start time and the duration of its
  buffer; its scheduled end is the sum of the two, the value line 98 leaves in
  \<open>nextStartTimeRef\<close>. A log has no overlap when each entry starts no earlier than the
  entry before it ends, and no gap when each entry starts exactly there.
\<close>

definition bufferStart :: "nat \<times> 't \<times> 't \<Rightarrow> 't" where
  "bufferStart b = fst (snd b)"

definition bufferEnd :: "nat \<times> ('t::plus) \<times> 't \<Rightarrow> 't" where
  "bufferEnd b = fst (snd b) + snd (snd b)"

definition noOverlap :: "(nat \<times> ('t::{plus,ord}) \<times> 't) list \<Rightarrow> bool" where
  "noOverlap bs = successively (\<lambda>a b. bufferEnd a \<le> bufferStart b) bs"

definition noGap :: "(nat \<times> ('t::plus) \<times> 't) list \<Rightarrow> bool" where
  "noGap bs = successively (\<lambda>a b. bufferEnd a = bufferStart b) bs"

text \<open>
  An event belongs to a message carrying an interruption when it is the receipt of such a
  message, or the settling of the await of a suspended run of such a message. A sequence
  of events is free of interruptions when none of its events is one, each looked at in
  the state it finds.
\<close>

definition isInterruption :: "'t App \<Rightarrow> 't Event \<Rightarrow> bool" where
  "isInterruption s e =
     (case e of
        OnMessage c m \<Rightarrow> interrupted m
      | DecodeSettled k \<Rightarrow> (case pending s k of None \<Rightarrow> False | Some (a, m) \<Rightarrow> interrupted m)
      | _ \<Rightarrow> False)"

fun interruptionFree ::
  "(string \<Rightarrow> 't option) \<Rightarrow> 't Event list \<Rightarrow> ('t::{linorder,plus,zero}) App \<Rightarrow> bool" where
  "interruptionFree d [] s = True"
| "interruptionFree d (e # es) s = (\<not> isInterruption s e \<and> interruptionFree d es (handle d s e))"

text \<open>
  The invariant of a stretch of events without an interruption, for the buffers started
  since position \<open>n\<close> of the log: they do not overlap, and the last of them ends no later
  than the running next-start time.
\<close>

definition stretch_ok :: "nat \<Rightarrow> ('t::{linorder,plus,zero}) App \<Rightarrow> bool" where
  "stretch_ok n s =
     (n \<le> length (scheduled s) \<and> noOverlap (drop n (scheduled s)) \<and>
      (n = length (scheduled s) \<or> bufferEnd (last (scheduled s)) \<le> nextStartTimeRef s))"

text \<open>
  A stretch of events arrives in time when every message that comes after the stretch has
  scheduled a buffer finds the output clock no later than the running next-start time.
  \<open>stretch_gapless\<close> is the invariant of such a stretch.
\<close>

fun inTime ::
  "(string \<Rightarrow> 't option) \<Rightarrow> nat \<Rightarrow> 't Event list \<Rightarrow> ('t::{linorder,plus,zero}) App \<Rightarrow> bool" where
  "inTime d n [] s = True"
| "inTime d n (e # es) s =
     ((case e of
         OnMessage c m \<Rightarrow> n = length (scheduled s) \<or> c \<le> nextStartTimeRef s
       | _ \<Rightarrow> True) \<and>
      inTime d n es (handle d s e))"

definition stretch_gapless :: "nat \<Rightarrow> ('t::{linorder,plus,zero}) App \<Rightarrow> bool" where
  "stretch_gapless n s =
     (n \<le> length (scheduled s) \<and> noGap (drop n (scheduled s)) \<and>
      (n = length (scheduled s) \<or> bufferEnd (last (scheduled s)) = nextStartTimeRef s))"

text \<open>
  The invariant of the set of playing sources: its members have been started, none of
  them has had \<open>stop()\<close> called, and the numbers in use are below the next fresh one.
\<close>

definition sources_ok :: "'t App \<Rightarrow> bool" where
  "sources_ok s =
     (sourcesRef s \<subseteq> fst ` set (scheduled s) \<and> sourcesRef s \<inter> stoppedSources s = {} \<and>
      sourcesRef s \<union> stoppedSources s \<subseteq> {..<nextSource s})"

section \<open>Sample inputs\<close>

text \<open>
  Concrete messages, a decoder that fails on the payload \<open>!\<close> and gives every other
  payload a buffer of five seconds, and the state \<open>connected\<close> of a session that has
  started and opened. \<open>vendorMessage\<close> sets every field the handler reads.
\<close>

definition verse :: "string \<Rightarrow> string \<Rightarrow> VerseIdentification" where
  "verse su ay =
     \<lparr>surahName = su, ayahNumber = ay, transcription = ''...'', translationEn = ''...'',
      translationEs = ''...''\<rparr>"

definition identify :: "string \<Rightarrow> VerseIdentification \<Rightarrow> FunctionCall" where
  "identify i v = \<lparr>call_id = i, name = ''identifyQuranVerse'', args = v\<rparr>"

definition toolCallMessage :: "FunctionCall list \<Rightarrow> LiveServerMessage" where
  "toolCallMessage fcs =
     \<lparr>inlineData = None, interrupted = False, inputTranscription = None, toolCall = Some fcs,
      turnComplete = False\<rparr>"

definition audioMessage :: "string \<Rightarrow> LiveServerMessage" where
  "audioMessage a =
     \<lparr>inlineData = Some a, interrupted = False, inputTranscription = None, toolCall = None,
      turnComplete = False\<rparr>"

definition interruptedMessage :: LiveServerMessage where
  "interruptedMessage =
     \<lparr>inlineData = None, interrupted = True, inputTranscription = None, toolCall = None,
      turnComplete = False\<rparr>"

definition vendorMessage ::
  "string option \<Rightarrow> bool \<Rightarrow> FunctionCall list option \<Rightarrow> LiveServerMessage" where
  "vendorMessage a i fcs =
     \<lparr>inlineData = a, interrupted = i, inputTranscription = None, toolCall = fcs,
      turnComplete = False\<rparr>"

definition sampleDecoder :: "string \<Rightarrow> real option" where
  "sampleDecoder a = (if a = ''!'' then None else Some 5)"

definition connected :: "real App" where
  "connected =
     run sampleDecoder [ButtonClick, GetUserMediaSettled (Inr ()), ConnectSettled (Inr 7), OnOpen]
       initialApp"

section \<open>Lemmas about the handlers\<close>

lemma run_Nil: "run d [] s = s"
  by (simp add: run_def)

lemmas stop_defs = stopSession_def closeSession_def closeAudioContext_def closeOutputAudioContext_def

lemmas start_defs = startSession_begin_def startSession_catch_def startSession_gotMedia_def
  startSession_connected_def

lemmas block_defs = onInterrupted_def onInputTranscription_def onTurnComplete_def

lemmas sample_defs = verse_def identify_def toolCallMessage_def audioMessage_def
  interruptedMessage_def vendorMessage_def sampleDecoder_def

lemmas handler_defs = run_def handle_def onClick_def start_defs stop_defs onopen_def onerror_def
  onclose_def onended_def onmessage_def onDecodeSettled_def playDecoded_def afterAudio_def
  block_defs onToolCall_def onFunctionCall_def appendVerse_def isDuplicate_def initialApp_def

lemma run_snoc: "run d (es @ [e]) s = handle d (run d es s) e"
  by (simp add: run_def)

lemma run_Cons: "run d (e # es) s = run d es (handle d s e)"
  by (simp add: run_def)

subsection \<open>The two pieces of the message handler\<close>

lemma onmessage_immediate: "\<not> suspendsAtDecode m s \<Longrightarrow> onmessage c m s = afterAudio m s"
  by (auto simp: onmessage_def suspendsAtDecode_def split: option.splits)

lemma onmessage_suspended:
  "suspendsAtDecode m s \<Longrightarrow>
     onmessage c m s =
       s\<lparr>nextStartTimeRef := max (nextStartTimeRef s) c,
         pending := (pending s)(nextHandler s \<mapsto> (the (inlineData m), m)),
         nextHandler := Suc (nextHandler s)\<rparr>"
  by (auto simp: onmessage_def suspendsAtDecode_def split: option.splits)

lemma onDecodeSettled_none: "pending s k = None \<Longrightarrow> onDecodeSettled d k s = s"
  by (simp add: onDecodeSettled_def)

lemma onDecodeSettled_throws:
  "pending s k = Some (a, m) \<Longrightarrow> d a = None \<Longrightarrow>
     onDecodeSettled d k s = s\<lparr>pending := (pending s)(k := None)\<rparr>"
  by (simp add: onDecodeSettled_def)

lemma onDecodeSettled_plays:
  "pending s k = Some (a, m) \<Longrightarrow> d a = Some dur \<Longrightarrow>
     onDecodeSettled d k s = afterAudio m (playDecoded dur (s\<lparr>pending := (pending s)(k := None)\<rparr>))"
  by (simp add: onDecodeSettled_def)

text \<open>
  A property that the receipt piece, the dropping of a suspended run and the rest of the
  handler after a decode all keep is kept by both message events.
\<close>

lemma message_events_keep:
  assumes recv: "\<And>c m s. suspendsAtDecode m s \<Longrightarrow> P s \<Longrightarrow>
      P (s\<lparr>nextStartTimeRef := max (nextStartTimeRef s) c,
           pending := (pending s)(nextHandler s \<mapsto> (the (inlineData m), m)),
           nextHandler := Suc (nextHandler s)\<rparr>)"
    and drop: "\<And>k s. P s \<Longrightarrow> P (s\<lparr>pending := (pending s)(k := None)\<rparr>)"
    and play: "\<And>dur s. P s \<Longrightarrow> P (playDecoded dur s)"
    and rest: "\<And>m s. P s \<Longrightarrow> P (afterAudio m s)"
    and "P s"
  shows "P (onmessage c m s)" and "P (onDecodeSettled d k s)"
proof -
  show "P (onmessage c m s)"
    by (cases "suspendsAtDecode m s")
       (simp_all add: onmessage_immediate onmessage_suspended recv rest \<open>P s\<close>)
  show "P (onDecodeSettled d k s)"
  proof (cases "pending s k")
    case None
    then show ?thesis by (simp add: onDecodeSettled_none \<open>P s\<close>)
  next
    case (Some am)
    obtain a m where am: "am = (a, m)" by (cases am)
    show ?thesis
      by (cases "d a")
         (simp_all add: onDecodeSettled_throws onDecodeSettled_plays Some [unfolded am]
            drop play rest \<open>P s\<close>)
  qed
qed

subsection \<open>What the blocks of the handler leave alone\<close>

lemma foldl_onFunctionCall_keeps:
  "appState (foldl onFunctionCall s fcs) = appState s"
  "scheduled (foldl onFunctionCall s fcs) = scheduled s"
  "nextStartTimeRef (foldl onFunctionCall s fcs) = nextStartTimeRef s"
  "sourcesRef (foldl onFunctionCall s fcs) = sourcesRef s"
  "stoppedSources (foldl onFunctionCall s fcs) = stoppedSources s"
  "nextSource (foldl onFunctionCall s fcs) = nextSource s"
  "pending (foldl onFunctionCall s fcs) = pending s"
  by (induction fcs arbitrary: s) (simp_all add: onFunctionCall_def)

lemma onToolCall_keeps:
  "appState (onToolCall m s) = appState s"
  "scheduled (onToolCall m s) = scheduled s"
  "nextStartTimeRef (onToolCall m s) = nextStartTimeRef s"
  "sourcesRef (onToolCall m s) = sourcesRef s"
  "stoppedSources (onToolCall m s) = stoppedSources s"
  "nextSource (onToolCall m s) = nextSource s"
  "pending (onToolCall m s) = pending s"
  by (simp_all add: onToolCall_def foldl_onFunctionCall_keeps split: option.splits)

lemma onInterrupted_keeps:
  "appState (onInterrupted m s) = appState s"
  "verseHistory (onInterrupted m s) = verseHistory s"
  "isVerifyingSequence (onInterrupted m s) = isVerifyingSequence s"
  "scheduled (onInterrupted m s) = scheduled s"
  "nextSource (onInterrupted m s) = nextSource s"
  "pending (onInterrupted m s) = pending s"
  by (simp_all add: onInterrupted_def)

lemma onInputTranscription_keeps:
  "appState (onInputTranscription m s) = appState s"
  "verseHistory (onInputTranscription m s) = verseHistory s"
  "isVerifyingSequence (onInputTranscription m s) = isVerifyingSequence s"
  "scheduled (onInputTranscription m s) = scheduled s"
  "nextStartTimeRef (onInputTranscription m s) = nextStartTimeRef s"
  "sourcesRef (onInputTranscription m s) = sourcesRef s"
  "stoppedSources (onInputTranscription m s) = stoppedSources s"
  "nextSource (onInputTranscription m s) = nextSource s"
  "pending (onInputTranscription m s) = pending s"
  by (simp_all add: onInputTranscription_def split: option.splits)

lemma onTurnComplete_keeps:
  "appState (onTurnComplete m s) = appState s"
  "verseHistory (onTurnComplete m s) = verseHistory s"
  "isVerifyingSequence (onTurnComplete m s) = isVerifyingSequence s"
  "scheduled (onTurnComplete m s) = scheduled s"
  "nextStartTimeRef (onTurnComplete m s) = nextStartTimeRef s"
  "sourcesRef (onTurnComplete m s) = sourcesRef s"
  "stoppedSources (onTurnComplete m s) = stoppedSources s"
  "nextSource (onTurnComplete m s) = nextSource s"
  "pending (onTurnComplete m s) = pending s"
  by (simp_all add: onTurnComplete_def)

lemmas block_keeps = onInterrupted_keeps onInputTranscription_keeps onToolCall_keeps
  onTurnComplete_keeps

lemma afterAudio_keeps:
  "appState (afterAudio m s) = appState s"
  "scheduled (afterAudio m s) = scheduled s"
  "nextSource (afterAudio m s) = nextSource s"
  "pending (afterAudio m s) = pending s"
  by (simp_all add: afterAudio_def block_keeps)

lemma afterAudio_interruption:
  "nextStartTimeRef (afterAudio m s) = (if interrupted m then 0 else nextStartTimeRef s)"
  "sourcesRef (afterAudio m s) = (if interrupted m then {} else sourcesRef s)"
  "stoppedSources (afterAudio m s) =
     (if interrupted m then stoppedSources s \<union> sourcesRef s else stoppedSources s)"
  by (simp_all add: afterAudio_def block_keeps onInterrupted_def)

lemma appState_message_events:
  "appState (onmessage c m s) = appState s"
  "appState (onDecodeSettled d k s) = appState s"
  by (rule message_events_keep [where P = "\<lambda>s'. appState s' = appState s"];
      simp add: playDecoded_def afterAudio_keeps)+


lemma handle_other_events:
  assumes "\<nexists>c m. e = OnMessage c m" and "\<nexists>k. e = DecodeSettled k"
  shows "scheduled (handle d s e) = scheduled s"
    and "nextStartTimeRef (handle d s e) = nextStartTimeRef s"
    and "stoppedSources (handle d s e) = stoppedSources s"
    and "nextSource (handle d s e) = nextSource s"
    and "sourcesRef (handle d s e) \<subseteq> sourcesRef s"
    and "pending (handle d s e) = pending s"
  using assms
  by (cases e;
      auto simp: handle_def onClick_def start_defs stop_defs onopen_def onerror_def
        onclose_def onended_def split: option.splits sum.splits)+

section \<open>The verse history\<close>

lemma appendVerse_unique: "unique_verses prev \<Longrightarrow> unique_verses (appendVerse r prev)"
  by (auto simp: unique_verses_def appendVerse_def isDuplicate_def list_ex_iff)

lemma foldl_onFunctionCall_unique:
  "unique_verses (verseHistory s) \<Longrightarrow> unique_verses (verseHistory (foldl onFunctionCall s fcs))"
  by (induction fcs arbitrary: s) (simp_all add: onFunctionCall_def appendVerse_unique)

lemma afterAudio_unique:
  "unique_verses (verseHistory s) \<Longrightarrow> unique_verses (verseHistory (afterAudio m s))"
  by (simp add: afterAudio_def block_keeps onToolCall_def foldl_onFunctionCall_unique
        split: option.splits)

lemma message_events_unique:
  assumes "unique_verses (verseHistory s)"
  shows "unique_verses (verseHistory (onmessage c m s))"
    and "unique_verses (verseHistory (onDecodeSettled d k s))"
  by (rule message_events_keep [where P = "\<lambda>s'. unique_verses (verseHistory s')"];
      simp add: playDecoded_def afterAudio_unique assms)+

lemma handle_unique:
  assumes "unique_verses (verseHistory s)"
  shows "unique_verses (verseHistory (handle d s e))"
proof (cases e)
  case (OnMessage c m)
  then show ?thesis using assms by (simp add: handle_def message_events_unique)
next
  case (DecodeSettled k)
  then show ?thesis using assms by (simp add: handle_def message_events_unique)
next
  case ButtonClick
  then show ?thesis using assms
    by (simp add: handle_def onClick_def start_defs stop_defs unique_verses_def split: option.splits)
qed (use assms in \<open>simp_all add: handle_def start_defs stop_defs onopen_def
        onerror_def onclose_def onended_def split: option.splits sum.splits\<close>)

lemma run_unique:
  "unique_verses (verseHistory s) \<Longrightarrow> unique_verses (verseHistory (run d es s))"
  by (induction es arbitrary: s) (simp_all add: run_Cons run_def handle_unique)

text \<open>
  C1. Whatever events the component receives, starting from its initial state, the verse
  history never holds two entries with the same surah name and ayah number.
\<close>

theorem verseHistory_never_duplicates:
  "unique_verses (verseHistory (run d es initialApp))"
  by (rule run_unique) (simp add: initialApp_def unique_verses_def)


theorem verseHistory_never_duplicates_witness:
  "verseHistory (run sampleDecoder
       [ButtonClick, GetUserMediaSettled (Inr ()), ConnectSettled (Inr 7), OnOpen,
        OnMessage 0 (toolCallMessage [identify ''a'' (verse ''Al-Fatiha'' ''1'')]),
        OnMessage 1 (vendorMessage (Some ''AAAA'') False
                       (Some [identify ''b'' (verse ''Al-Fatiha'' ''1''),
                              identify ''c'' (verse ''Al-Fatiha'' ''2'')])),
        DecodeSettled 0]
       initialApp)
     = [verse ''Al-Fatiha'' ''1'', verse ''Al-Fatiha'' ''2'']
   \<and> unique_verses (verseHistory (run sampleDecoder
       [ButtonClick, GetUserMediaSettled (Inr ()), ConnectSettled (Inr 7), OnOpen,
        OnMessage 0 (toolCallMessage [identify ''a'' (verse ''Al-Fatiha'' ''1'')]),
        OnMessage 1 (vendorMessage (Some ''AAAA'') False
                       (Some [identify ''b'' (verse ''Al-Fatiha'' ''1''),
                              identify ''c'' (verse ''Al-Fatiha'' ''2'')])),
        DecodeSettled 0]
       initialApp))"
  using verseHistory_never_duplicates [of sampleDecoder
       "[ButtonClick, GetUserMediaSettled (Inr ()), ConnectSettled (Inr 7), OnOpen,
        OnMessage 0 (toolCallMessage [identify ''a'' (verse ''Al-Fatiha'' ''1'')]),
        OnMessage 1 (vendorMessage (Some ''AAAA'') False
                       (Some [identify ''b'' (verse ''Al-Fatiha'' ''1''),
                              identify ''c'' (verse ''Al-Fatiha'' ''2'')])),
        DecodeSettled 0]"]
  by (simp add: handler_defs sample_defs)


section \<open>Teardown\<close>

text \<open>
  C10. \<open>stopSession\<close> is idempotent: run on a state it produced it changes nothing. It
  leaves the session handle and both audio context references null, the state idle and
  the sequential-prediction flag false; each of its three teardown steps does nothing on a
  null reference.
\<close>

theorem stopSession_idempotent:
  "stopSession (stopSession s) = stopSession s \<and>
   sessionRef (stopSession s) = None \<and> audioContextRef (stopSession s) = None \<and>
   outputAudioContextRef (stopSession s) = None \<and> appState (stopSession s) = IDLE \<and>
   isVerifyingSequence (stopSession s) = False"
  by (simp add: stop_defs split: option.splits)

theorem stopSession_idempotent_witness:
  "stopSession (stopSession connected) = stopSession connected \<and>
   sessionRef (stopSession connected) = None \<and>
   audioContextRef (stopSession connected) = None \<and>
   outputAudioContextRef (stopSession connected) = None \<and>
   appState (stopSession connected) = IDLE \<and>
   isVerifyingSequence (stopSession connected) = False \<and>
   closedSessions (stopSession connected) = {7} \<and>
   closedContexts (stopSession connected) = {0, 1}"
  using stopSession_idempotent [of connected]
  by (simp add: connected_def handler_defs insert_commute)

section \<open>The ERROR member is never assigned\<close>

lemma handle_not_ERROR: "appState s \<noteq> ERROR \<Longrightarrow> appState (handle d s e) \<noteq> ERROR"
  by (cases e)
     (simp_all add: handle_def onClick_def start_defs stop_defs onopen_def onerror_def
        onclose_def onended_def appState_message_events split: option.splits sum.splits)

lemma run_not_ERROR: "appState s \<noteq> ERROR \<Longrightarrow> appState (run d es s) \<noteq> ERROR"
  by (induction es arbitrary: s) (simp_all add: run_Cons run_Nil handle_not_ERROR)

text \<open>
  C9. In every state the component reaches from its initial state, whatever the events,
  the application state is not \<open>ERROR\<close>: no handler assigns it. An error is reported
  through the message cell \<open>error\<close> while the state goes back to idle.
\<close>

theorem appState_never_ERROR: "appState (run d es initialApp) \<noteq> ERROR"
  by (rule run_not_ERROR) (simp add: initialApp_def)

theorem appState_never_ERROR_witness:
  "appState (run sampleDecoder [ButtonClick, GetUserMediaSettled (Inr ()), OnError] initialApp) = IDLE \<and>
   error (run sampleDecoder [ButtonClick, GetUserMediaSettled (Inr ()), OnError] initialApp)
     = Some ''Stream error. This is often caused by network latency.'' \<and>
   appState (run sampleDecoder [ButtonClick, GetUserMediaSettled (Inr ()), OnError] initialApp) \<noteq> ERROR"
  using appState_never_ERROR [of sampleDecoder "[ButtonClick, GetUserMediaSettled (Inr ()), OnError]"]
  by (simp add: handler_defs)

section \<open>Entries of the history are never modified\<close>

lemma foldl_onFunctionCall_prefix:
  "prefix (verseHistory s) (verseHistory (foldl onFunctionCall s fcs))"
proof (induction fcs arbitrary: s)
  case Nil
  show ?case by simp
next
  case (Cons fc fcs)
  have "prefix (verseHistory s) (verseHistory (onFunctionCall s fc))"
    by (simp add: onFunctionCall_def appendVerse_def)
  then show ?case using Cons [of "onFunctionCall s fc"] by (auto intro: prefix_order.trans)
qed

lemma afterAudio_prefix: "prefix h (verseHistory s) \<Longrightarrow> prefix h (verseHistory (afterAudio m s))"
proof -
  assume h: "prefix h (verseHistory s)"
  let ?s1 = "onInputTranscription m (onInterrupted m s)"
  have "verseHistory ?s1 = verseHistory s" by (simp add: block_keeps)
  moreover have "prefix (verseHistory ?s1) (verseHistory (onToolCall m ?s1))"
    by (cases "toolCall m") (simp_all add: onToolCall_def foldl_onFunctionCall_prefix)
  ultimately have "prefix (verseHistory s) (verseHistory (afterAudio m s))"
    by (simp add: afterAudio_def block_keeps)
  with h show ?thesis by (rule prefix_order.trans)
qed

lemma message_events_prefix:
  "prefix (verseHistory s) (verseHistory (onmessage c m s))"
  "prefix (verseHistory s) (verseHistory (onDecodeSettled d k s))"
  by (rule message_events_keep [where P = "\<lambda>s'. prefix (verseHistory s) (verseHistory s')"];
      simp add: playDecoded_def afterAudio_prefix)+

lemma handle_prefix:
  assumes "e \<noteq> ButtonClick"
  shows "prefix (verseHistory s) (verseHistory (handle d s e))"
  using assms
  by (cases e)
     (simp_all add: handle_def message_events_prefix start_defs stop_defs onopen_def
        onerror_def onclose_def onended_def split: option.splits sum.splits)

lemma run_prefix:
  "list_all (\<lambda>e. e \<noteq> ButtonClick) es \<Longrightarrow> prefix (verseHistory s) (verseHistory (run d es s))"
proof (induction es arbitrary: s)
  case Nil
  show ?case by (simp add: run_Nil)
next
  case (Cons e es)
  then have "prefix (verseHistory s) (verseHistory (handle d s e))"
    and "prefix (verseHistory (handle d s e)) (verseHistory (run d es (handle d s e)))"
    by (simp_all add: handle_prefix)
  then show ?case by (simp add: run_Cons)
qed

text \<open>
  C7. Processing any sequence of later events other than a click on the button (the
  receipt of messages, the settling of their decodes, and every other callback) keeps the
  history it started from as a prefix of the new history: every entry already present
  keeps its value and its position, and new entries are added at the end only.
\<close>

theorem verseHistory_entries_immutable:
  "list_all (\<lambda>e. e \<noteq> ButtonClick) es \<longrightarrow>
     prefix (verseHistory s) (verseHistory (run d es s)) \<and>
     (\<forall>i < length (verseHistory s). verseHistory (run d es s) ! i = verseHistory s ! i)"
  using run_prefix [of es s d] by (auto simp: prefix_def nth_append)

theorem verseHistory_entries_immutable_witness:
  "verseHistory (run sampleDecoder
      [OnMessage 0 (toolCallMessage [identify ''a'' (verse ''Al-Fatiha'' ''1'')])] connected)
     = [verse ''Al-Fatiha'' ''1''] \<and>
   verseHistory (run sampleDecoder
      [OnMessage 1 (vendorMessage (Some ''AAAA'') False
                      (Some [identify ''b'' (verse ''Al-Fatiha'' ''2'')])),
       OnMessage 2 (toolCallMessage [identify ''c'' (verse ''Al-Fatiha'' ''1'')]),
       DecodeSettled 0, OnClose]
      (run sampleDecoder
        [OnMessage 0 (toolCallMessage [identify ''a'' (verse ''Al-Fatiha'' ''1'')])] connected))
     = [verse ''Al-Fatiha'' ''1'', verse ''Al-Fatiha'' ''2''] \<and>
   prefix
     (verseHistory (run sampleDecoder
        [OnMessage 0 (toolCallMessage [identify ''a'' (verse ''Al-Fatiha'' ''1'')])] connected))
     (verseHistory (run sampleDecoder
        [OnMessage 1 (vendorMessage (Some ''AAAA'') False
                        (Some [identify ''b'' (verse ''Al-Fatiha'' ''2'')])),
         OnMessage 2 (toolCallMessage [identify ''c'' (verse ''Al-Fatiha'' ''1'')]),
         DecodeSettled 0, OnClose]
        (run sampleDecoder
          [OnMessage 0 (toolCallMessage [identify ''a'' (verse ''Al-Fatiha'' ''1'')])] connected)))"
  using verseHistory_entries_immutable [of
      "[OnMessage 1 (vendorMessage (Some ''AAAA'') False
                        (Some [identify ''b'' (verse ''Al-Fatiha'' ''2'')])),
         OnMessage 2 (toolCallMessage [identify ''c'' (verse ''Al-Fatiha'' ''1'')]),
         DecodeSettled 0, OnClose]"
      "run sampleDecoder
          [OnMessage 0 (toolCallMessage [identify ''a'' (verse ''Al-Fatiha'' ''1'')])] connected"
      sampleDecoder]
  by (simp add: connected_def handler_defs sample_defs)

section \<open>Transitions of the application state\<close>

lemma appState_handle_edge:
  "appState s \<noteq> ERROR \<Longrightarrow>
     appState (handle d s e) = appState s \<or> code_edge (appState s) (appState (handle d s e))"
  by (cases e; cases "appState s")
     (simp_all add: handle_def code_edge_def onClick_def start_defs stop_defs onopen_def
        onerror_def onclose_def onended_def appState_message_events
        split: option.splits sum.splits)

text \<open>
  C4, as the code has it. From any state the component reaches, an event either leaves
  the application state as it is or moves it along one of: idle to connecting (a click on
  start), connecting to listening (open), listening to idle (stop, stream error, close),
  connecting to idle (a failed start, a stream error or a close while connecting), idle to
  listening (an open callback that arrives when the state is idle: the callback is not
  guarded by the state). The ERROR state is never entered.
\<close>

theorem transitions_follow_code_edges:
  "(appState (handle d (run d es initialApp) e) = appState (run d es initialApp) \<or>
    code_edge (appState (run d es initialApp)) (appState (handle d (run d es initialApp) e))) \<and>
   appState (handle d (run d es initialApp) e) \<noteq> ERROR"
  using appState_handle_edge [of "run d es initialApp" d e]
    handle_not_ERROR [of "run d es initialApp" d e] run_not_ERROR [of initialApp d es]
  by (simp add: initialApp_def)

text \<open>
  Two runs: the usual open while connecting; and a stop followed at once by a new start,
  where the close callback of the stopped session arrives while the new one is connecting
  and sets the state to idle, so that the open callback of the new session then moves the
  state from idle to listening.
\<close>

theorem transitions_follow_code_edges_witness:
  "appState (run sampleDecoder [ButtonClick] initialApp) = CONNECTING \<and>
   appState (handle sampleDecoder (run sampleDecoder [ButtonClick] initialApp) OnOpen) = LISTENING \<and>
   code_edge (appState (run sampleDecoder [ButtonClick] initialApp))
     (appState (handle sampleDecoder (run sampleDecoder [ButtonClick] initialApp) OnOpen)) \<and>
   appState (run sampleDecoder
      [ButtonClick, GetUserMediaSettled (Inr ()), ConnectSettled (Inr 7), OnOpen, ButtonClick,
       ButtonClick, OnClose, GetUserMediaSettled (Inr ()), ConnectSettled (Inr 8)] initialApp) = IDLE \<and>
   appState (handle sampleDecoder (run sampleDecoder
      [ButtonClick, GetUserMediaSettled (Inr ()), ConnectSettled (Inr 7), OnOpen, ButtonClick,
       ButtonClick, OnClose, GetUserMediaSettled (Inr ()), ConnectSettled (Inr 8)] initialApp)
      OnOpen) = LISTENING"
  using transitions_follow_code_edges [of sampleDecoder "[ButtonClick]" OnOpen]
    transitions_follow_code_edges [of sampleDecoder
      "[ButtonClick, GetUserMediaSettled (Inr ()), ConnectSettled (Inr 7), OnOpen, ButtonClick,
       ButtonClick, OnClose, GetUserMediaSettled (Inr ()), ConnectSettled (Inr 8)]" OnOpen]
  by (simp add: handler_defs)

text \<open>
  The transitions named by the specification do not cover the code: when
  \<open>getUserMedia\<close> rejects, the catch block of \<open>startSession\<close> moves the state from
  connecting straight back to idle.
\<close>

theorem failed_start_goes_from_connecting_to_idle:
  "appState (run sampleDecoder [ButtonClick] initialApp) = CONNECTING \<and>
   appState (handle sampleDecoder (run sampleDecoder [ButtonClick] initialApp)
      (GetUserMediaSettled (Inl ''Permission denied''))) = IDLE \<and>
   \<not> claimed_edge (appState (run sampleDecoder [ButtonClick] initialApp))
      (appState (handle sampleDecoder (run sampleDecoder [ButtonClick] initialApp)
         (GetUserMediaSettled (Inl ''Permission denied''))))"
  by (simp add: handler_defs claimed_edge_def)

section \<open>Overlap of scheduled buffers\<close>

lemma stretch_ok_same:
  assumes "stretch_ok n s" and "scheduled s' = scheduled s"
    and "nextStartTimeRef s \<le> nextStartTimeRef s'"
  shows "stretch_ok n s'"
  using assms by (auto simp: stretch_ok_def)

lemma stretch_ok_snoc:
  assumes "stretch_ok n s"
    and "scheduled s' = scheduled s @ [(src, start, dur)]"
    and "nextStartTimeRef s \<le> start" and "nextStartTimeRef s' = start + dur"
  shows "stretch_ok n s'"
proof -
  from assms(1) have n: "n \<le> length (scheduled s)"
    and no: "noOverlap (drop n (scheduled s))"
    and lst: "n = length (scheduled s) \<or> bufferEnd (last (scheduled s)) \<le> nextStartTimeRef s"
    by (simp_all add: stretch_ok_def)
  have "drop n (scheduled s) = [] \<or>
        bufferEnd (last (drop n (scheduled s))) \<le> bufferStart (src, start, dur)"
  proof (cases "n = length (scheduled s)")
    case True
    then show ?thesis by simp
  next
    case False
    with n lst have "bufferEnd (last (scheduled s)) \<le> nextStartTimeRef s" and "n < length (scheduled s)"
      by simp_all
    then show ?thesis using assms(3) by (simp add: bufferStart_def)
  qed
  then have "noOverlap (drop n (scheduled s) @ [(src, start, dur)])"
    using no by (auto simp: noOverlap_def successively_append_iff)
  then show ?thesis
    using n assms(2,4) by (simp add: stretch_ok_def bufferEnd_def)
qed

lemma handle_stretch_ok:
  assumes ok: "stretch_ok n s" and ni: "\<not> isInterruption s e"
  shows "stretch_ok n (handle d s e)"
proof (cases e)
  case (OnMessage c m)
  then have m: "\<not> interrupted m" using ni by (simp add: isInterruption_def)
  show ?thesis
  proof (cases "suspendsAtDecode m s")
    case True
    then show ?thesis using OnMessage
      by (simp add: handle_def onmessage_suspended stretch_ok_same [OF ok])
  next
    case False
    then show ?thesis using OnMessage m
      by (simp add: handle_def onmessage_immediate afterAudio_keeps afterAudio_interruption
            stretch_ok_same [OF ok])
  qed
next
  case (DecodeSettled k)
  show ?thesis
  proof (cases "pending s k")
    case None
    then show ?thesis using DecodeSettled ok by (simp add: handle_def onDecodeSettled_none)
  next
    case (Some am)
    obtain a m where am: "am = (a, m)" by (cases am)
    have p: "pending s k = Some (a, m)" using Some am by simp
    have m: "\<not> interrupted m" using ni DecodeSettled p by (simp add: isInterruption_def)
    show ?thesis
    proof (cases "d a")
      case None
      then show ?thesis using DecodeSettled p
        by (simp add: handle_def onDecodeSettled_throws stretch_ok_same [OF ok])
    next
      case (Some dur)
      let ?s1 = "playDecoded dur (s\<lparr>pending := (pending s)(k := None)\<rparr>)"
      have "stretch_ok n ?s1"
        by (rule stretch_ok_snoc [OF ok, where src = "nextSource s"
              and start = "nextStartTimeRef s" and dur = dur])
           (simp_all add: playDecoded_def)
      then have "stretch_ok n (afterAudio m ?s1)"
        using m by (simp add: stretch_ok_same afterAudio_keeps afterAudio_interruption)
      then show ?thesis using DecodeSettled p Some
        by (simp add: handle_def onDecodeSettled_plays)
    qed
  qed
qed (simp_all add: handle_other_events stretch_ok_same [OF ok])

lemma run_stretch_ok:
  "stretch_ok n s \<Longrightarrow> interruptionFree d es s \<Longrightarrow> stretch_ok n (run d es s)"
  by (induction es arbitrary: s) (simp_all add: run_Nil run_Cons handle_stretch_ok)

lemma stretch_gapless_same:
  assumes "stretch_gapless n s" and "scheduled s' = scheduled s"
    and "n = length (scheduled s) \<or> nextStartTimeRef s' = nextStartTimeRef s"
  shows "stretch_gapless n s'"
  using assms by (auto simp: stretch_gapless_def)

lemma stretch_gapless_snoc:
  assumes "stretch_gapless n s"
    and "scheduled s' = scheduled s @ [(src, start, dur)]"
    and "n = length (scheduled s) \<or> start = nextStartTimeRef s"
    and "nextStartTimeRef s' = start + dur"
  shows "stretch_gapless n s'"
proof -
  from assms(1) have n: "n \<le> length (scheduled s)"
    and no: "noGap (drop n (scheduled s))"
    and lst: "n = length (scheduled s) \<or> bufferEnd (last (scheduled s)) = nextStartTimeRef s"
    by (simp_all add: stretch_gapless_def)
  have "drop n (scheduled s) = [] \<or>
        bufferEnd (last (drop n (scheduled s))) = bufferStart (src, start, dur)"
  proof (cases "n = length (scheduled s)")
    case True
    then show ?thesis by simp
  next
    case False
    with n lst assms(3) have "bufferEnd (last (scheduled s)) = start" and "n < length (scheduled s)"
      by simp_all
    then show ?thesis by (simp add: bufferStart_def)
  qed
  then have "noGap (drop n (scheduled s) @ [(src, start, dur)])"
    using no by (auto simp: noGap_def successively_append_iff)
  then show ?thesis
    using n assms(2,4) by (simp add: stretch_gapless_def bufferEnd_def)
qed

lemma handle_stretch_gapless:
  assumes ok: "stretch_gapless n s" and ni: "\<not> isInterruption s e"
    and tm: "case e of OnMessage c m \<Rightarrow> n = length (scheduled s) \<or> c \<le> nextStartTimeRef s | _ \<Rightarrow> True"
  shows "stretch_gapless n (handle d s e)"
proof (cases e)
  case (OnMessage c m)
  then have m: "\<not> interrupted m" using ni by (simp add: isInterruption_def)
  have mx: "n = length (scheduled s) \<or> max (nextStartTimeRef s) c = nextStartTimeRef s"
    using tm OnMessage by (auto simp: max_def)
  show ?thesis
  proof (cases "suspendsAtDecode m s")
    case True
    have "stretch_gapless n
        (s\<lparr>nextStartTimeRef := max (nextStartTimeRef s) c,
           pending := (pending s)(nextHandler s \<mapsto> (the (inlineData m), m)),
           nextHandler := Suc (nextHandler s)\<rparr>)"
      using mx by (intro stretch_gapless_same [OF ok]) simp_all
    then show ?thesis using OnMessage True by (simp add: handle_def onmessage_suspended)
  next
    case False
    then show ?thesis using OnMessage m
      by (simp add: handle_def onmessage_immediate afterAudio_keeps afterAudio_interruption
            stretch_gapless_same [OF ok])
  qed
next
  case (DecodeSettled k)
  show ?thesis
  proof (cases "pending s k")
    case None
    then show ?thesis using DecodeSettled ok by (simp add: handle_def onDecodeSettled_none)
  next
    case (Some am)
    obtain a m where am: "am = (a, m)" by (cases am)
    have p: "pending s k = Some (a, m)" using Some am by simp
    have m: "\<not> interrupted m" using ni DecodeSettled p by (simp add: isInterruption_def)
    show ?thesis
    proof (cases "d a")
      case None
      then show ?thesis using DecodeSettled p
        by (simp add: handle_def onDecodeSettled_throws stretch_gapless_same [OF ok])
    next
      case (Some dur)
      let ?s1 = "playDecoded dur (s\<lparr>pending := (pending s)(k := None)\<rparr>)"
      have "stretch_gapless n ?s1"
        by (rule stretch_gapless_snoc [OF ok, where src = "nextSource s"
              and start = "nextStartTimeRef s" and dur = dur])
           (simp_all add: playDecoded_def)
      then have "stretch_gapless n (afterAudio m ?s1)"
        using m by (simp add: stretch_gapless_same afterAudio_keeps afterAudio_interruption)
      then show ?thesis using DecodeSettled p Some
        by (simp add: handle_def onDecodeSettled_plays)
    qed
  qed
qed (simp_all add: handle_other_events stretch_gapless_same [OF ok])

lemma run_stretch_gapless:
  "stretch_gapless n s \<Longrightarrow> interruptionFree d es s \<Longrightarrow> inTime d n es s \<Longrightarrow>
     stretch_gapless n (run d es s)"
  by (induction es arbitrary: s) (simp_all add: run_Nil run_Cons handle_stretch_gapless)

text \<open>
  C3, as the code has it. Over any sequence of events none of which belongs to a message
  carrying an interruption, started in any state, the buffers scheduled during the
  sequence do not overlap: each starts no earlier than the scheduled end of the one
  scheduled before it. When, in addition, every message that follows a buffer scheduled
  during the sequence finds the output clock no later than the running next-start time, no
  gap is left either: each buffer starts exactly at the scheduled end of the one before it.
  Both hold however the suspended runs of the handler interleave with other events.
\<close>

theorem no_overlap_without_interruption:
  assumes "interruptionFree d es s"
  shows "noOverlap (drop (length (scheduled s)) (scheduled (run d es s))) \<and>
         (inTime d (length (scheduled s)) es s \<longrightarrow>
            noGap (drop (length (scheduled s)) (scheduled (run d es s))))"
proof -
  have "stretch_ok (length (scheduled s)) s"
    by (simp add: stretch_ok_def noOverlap_def)
  then have "stretch_ok (length (scheduled s)) (run d es s)"
    using assms by (rule run_stretch_ok)
  moreover have "stretch_gapless (length (scheduled s)) (run d es s)"
    if "inTime d (length (scheduled s)) es s"
    using assms that by (intro run_stretch_gapless) (simp_all add: stretch_gapless_def noGap_def)
  ultimately show ?thesis by (auto simp: stretch_ok_def stretch_gapless_def)
qed

theorem no_overlap_without_interruption_witness:
  "scheduled (run sampleDecoder
      [OnMessage 1 (audioMessage ''AAAA''), OnMessage 2 (audioMessage ''AAAA''), DecodeSettled 0,
       SourceEnded 0, DecodeSettled 1, OnMessage 3 (audioMessage ''!''), DecodeSettled 2,
       OnMessage 11 (audioMessage ''AAAA''), DecodeSettled 3] connected)
     = [(0, 2, 5), (1, 7, 5), (2, 12, 5)] \<and>
   interruptionFree sampleDecoder
      [OnMessage 1 (audioMessage ''AAAA''), OnMessage 2 (audioMessage ''AAAA''), DecodeSettled 0,
       SourceEnded 0, DecodeSettled 1, OnMessage 3 (audioMessage ''!''), DecodeSettled 2,
       OnMessage 11 (audioMessage ''AAAA''), DecodeSettled 3] connected \<and>
   inTime sampleDecoder (length (scheduled connected))
      [OnMessage 1 (audioMessage ''AAAA''), OnMessage 2 (audioMessage ''AAAA''), DecodeSettled 0,
       SourceEnded 0, DecodeSettled 1, OnMessage 3 (audioMessage ''!''), DecodeSettled 2,
       OnMessage 11 (audioMessage ''AAAA''), DecodeSettled 3] connected \<and>
   noOverlap (drop (length (scheduled connected)) (scheduled (run sampleDecoder
      [OnMessage 1 (audioMessage ''AAAA''), OnMessage 2 (audioMessage ''AAAA''), DecodeSettled 0,
       SourceEnded 0, DecodeSettled 1, OnMessage 3 (audioMessage ''!''), DecodeSettled 2,
       OnMessage 11 (audioMessage ''AAAA''), DecodeSettled 3] connected))) \<and>
   noGap (drop (length (scheduled connected)) (scheduled (run sampleDecoder
      [OnMessage 1 (audioMessage ''AAAA''), OnMessage 2 (audioMessage ''AAAA''), DecodeSettled 0,
       SourceEnded 0, DecodeSettled 1, OnMessage 3 (audioMessage ''!''), DecodeSettled 2,
       OnMessage 11 (audioMessage ''AAAA''), DecodeSettled 3] connected)))"
  using no_overlap_without_interruption [of sampleDecoder
      "[OnMessage 1 (audioMessage ''AAAA''), OnMessage 2 (audioMessage ''AAAA''), DecodeSettled 0,
       SourceEnded 0, DecodeSettled 1, OnMessage 3 (audioMessage ''!''), DecodeSettled 2,
       OnMessage 11 (audioMessage ''AAAA''), DecodeSettled 3]"
      connected]
  by (simp add: connected_def handler_defs sample_defs isInterruption_def)

text \<open>
  The claim as the specification words it fails twice. After an interruption the next
  buffer starts at the output clock, here 12, before the scheduled end, 15, of the buffer
  scheduled before it (which the interruption stopped). And a buffer that arrives after
  the clock has passed the end of the one before, here at 9 after an end at 5, starts at
  the clock and leaves a gap.
\<close>

theorem interruption_and_late_arrival_break_contiguity:
  "scheduled (run sampleDecoder
      [ButtonClick, GetUserMediaSettled (Inr ()), ConnectSettled (Inr 7), OnOpen,
       OnMessage 10 (audioMessage ''AAAA''), DecodeSettled 0, OnMessage 11 interruptedMessage,
       OnMessage 12 (audioMessage ''AAAA''), DecodeSettled 1] initialApp)
     = [(0, 10, 5), (1, 12, 5)] \<and>
   \<not> noOverlap (scheduled (run sampleDecoder
      [ButtonClick, GetUserMediaSettled (Inr ()), ConnectSettled (Inr 7), OnOpen,
       OnMessage 10 (audioMessage ''AAAA''), DecodeSettled 0, OnMessage 11 interruptedMessage,
       OnMessage 12 (audioMessage ''AAAA''), DecodeSettled 1] initialApp)) \<and>
   scheduled (run sampleDecoder
      [ButtonClick, GetUserMediaSettled (Inr ()), ConnectSettled (Inr 7), OnOpen,
       OnMessage 0 (audioMessage ''AAAA''), DecodeSettled 0,
       OnMessage 9 (audioMessage ''AAAA''), DecodeSettled 1] initialApp)
     = [(0, 0, 5), (1, 9, 5)] \<and>
   \<not> noGap (scheduled (run sampleDecoder
      [ButtonClick, GetUserMediaSettled (Inr ()), ConnectSettled (Inr 7), OnOpen,
       OnMessage 0 (audioMessage ''AAAA''), DecodeSettled 0,
       OnMessage 9 (audioMessage ''AAAA''), DecodeSettled 1] initialApp))"
  by (simp add: handler_defs sample_defs noOverlap_def noGap_def bufferStart_def bufferEnd_def)

section \<open>Scheduling of playback\<close>

text \<open>
  C2, as the code has it. For a message that carries a non-empty audio payload which
  decodes, received while the output context exists: the receipt raises the running
  next-start time to the maximum of itself and the output clock, starts nothing and
  suspends the run; when the decode settles, in whatever state \<open>s'\<close> the events in
  between have left, the source is started at the next-start time of that state, and the
  next-start time becomes that start time plus the duration of the buffer (unless the same
  message carries an interruption, which resets it). When the decode settles before any
  other event, the start time is the maximum of the clock and the next-start time at the
  receipt.
\<close>

theorem audio_starts_at_running_next_start:
  assumes "inlineData m = Some a" and "a \<noteq> []" and "outputAudioContextRef s \<noteq> None"
    and "d a = Some dur"
  shows "nextStartTimeRef (handle d s (OnMessage c m)) = max (nextStartTimeRef s) c \<and>
         scheduled (handle d s (OnMessage c m)) = scheduled s \<and>
         pending (handle d s (OnMessage c m)) (nextHandler s) = Some (a, m) \<and>
         (pending s' k = Some (a, m) \<longrightarrow>
            scheduled (handle d s' (DecodeSettled k)) =
              scheduled s' @ [(nextSource s', nextStartTimeRef s', dur)] \<and>
            (\<not> interrupted m \<longrightarrow>
               nextStartTimeRef (handle d s' (DecodeSettled k)) = nextStartTimeRef s' + dur)) \<and>
         scheduled (run d [OnMessage c m, DecodeSettled (nextHandler s)] s) =
           scheduled s @ [(nextSource s, max (nextStartTimeRef s) c, dur)] \<and>
         (\<not> interrupted m \<longrightarrow>
            nextStartTimeRef (run d [OnMessage c m, DecodeSettled (nextHandler s)] s) =
              max (nextStartTimeRef s) c + dur)"
proof -
  have sus: "suspendsAtDecode m s"
    using assms by (simp add: suspendsAtDecode_def)
  let ?s1 = "handle d s (OnMessage c m)"
  have s1: "?s1 = s\<lparr>nextStartTimeRef := max (nextStartTimeRef s) c,
         pending := (pending s)(nextHandler s \<mapsto> (a, m)),
         nextHandler := Suc (nextHandler s)\<rparr>"
    using assms(1) by (simp add: handle_def onmessage_suspended [OF sus])
  have settle: "scheduled (handle d t (DecodeSettled k)) =
        scheduled t @ [(nextSource t, nextStartTimeRef t, dur)] \<and>
      (\<not> interrupted m \<longrightarrow>
         nextStartTimeRef (handle d t (DecodeSettled k)) = nextStartTimeRef t + dur)"
    if "pending t k = Some (a, m)" for t k
    using that assms(4)
    by (simp add: handle_def onDecodeSettled_plays afterAudio_keeps afterAudio_interruption
          playDecoded_def)
  have p1: "pending ?s1 (nextHandler s) = Some (a, m)"
    by (simp add: s1)
  have r: "run d [OnMessage c m, DecodeSettled (nextHandler s)] s =
      handle d ?s1 (DecodeSettled (nextHandler s))"
    by (simp add: run_def)
  show ?thesis
    using settle [of s' k] settle [OF p1] by (simp add: r) (simp add: s1)
qed

theorem audio_starts_at_running_next_start_witness:
  "nextStartTimeRef (handle sampleDecoder connected (OnMessage 3 (audioMessage ''AAAA''))) = 3 \<and>
   scheduled (handle sampleDecoder connected (OnMessage 3 (audioMessage ''AAAA''))) = [] \<and>
   scheduled (run sampleDecoder [OnMessage 3 (audioMessage ''AAAA''), DecodeSettled 0] connected)
     = [(0, 3, 5)] \<and>
   nextStartTimeRef
     (run sampleDecoder [OnMessage 3 (audioMessage ''AAAA''), DecodeSettled 0] connected) = 8 \<and>
   scheduled (handle sampleDecoder
       (run sampleDecoder
          [OnMessage 3 (audioMessage ''AAAA''), OnMessage 7 (audioMessage ''AAAA'')] connected)
       (DecodeSettled 0)) = [(0, 7, 5)]"
  using audio_starts_at_running_next_start [where m = "audioMessage ''AAAA''"
      and a = "''AAAA''" and s = connected and d = sampleDecoder and dur = 5 and c = 3
      and k = 0 and s' = "run sampleDecoder
          [OnMessage 3 (audioMessage ''AAAA''), OnMessage 7 (audioMessage ''AAAA'')] connected"]
  by (simp add: connected_def handler_defs sample_defs)

text \<open>
  The claim as the specification words it fails when another handler runs while the
  decode is pending. A first buffer is scheduled at 3 and leaves the next-start time at
  8. A second audio message arrives at clock 4, which leaves the next-start time at 8, and
  its run is suspended at the await. A message carrying an interruption is handled in
  between and resets the next-start time to zero. When the decode settles, line 97 reads
  the ref again and starts the buffer at 0, not at the maximum 8 of the clock and the
  next-start time at the receipt.
\<close>

theorem interleaved_interruption_moves_the_start:
  "nextStartTimeRef
     (run sampleDecoder [OnMessage 3 (audioMessage ''AAAA''), DecodeSettled 0] connected) = 8 \<and>
   scheduled (run sampleDecoder
      [OnMessage 3 (audioMessage ''AAAA''), DecodeSettled 0, OnMessage 4 (audioMessage ''AAAA''),
       OnMessage 5 interruptedMessage, DecodeSettled 1] connected)
     = [(0, 3, 5), (1, 0, 5)] \<and>
   bufferStart (last (scheduled (run sampleDecoder
      [OnMessage 3 (audioMessage ''AAAA''), DecodeSettled 0, OnMessage 4 (audioMessage ''AAAA''),
       OnMessage 5 interruptedMessage, DecodeSettled 1] connected)))
     \<noteq> max (nextStartTimeRef
          (run sampleDecoder [OnMessage 3 (audioMessage ''AAAA''), DecodeSettled 0] connected)) 4"
  by (simp add: connected_def handler_defs sample_defs bufferStart_def)

section \<open>The sequential-prediction flag\<close>

lemma flag_foldl_onFunctionCall:
  "isVerifyingSequence (foldl onFunctionCall s fcs) =
     (isVerifyingSequence s \<or> list_ex (\<lambda>fc. name fc = ''identifyQuranVerse'') fcs)"
  by (induction fcs arbitrary: s) (auto simp: onFunctionCall_def)

lemma flag_afterAudio:
  "isVerifyingSequence (afterAudio m s) = (isVerifyingSequence s \<or> namesIdentify m)"
  by (cases "toolCall m")
     (simp_all add: afterAudio_def block_keeps onToolCall_def namesIdentify_def
        flag_foldl_onFunctionCall)

lemma flag_onmessage:
  "isVerifyingSequence (onmessage c m s) =
     (if suspendsAtDecode m s then isVerifyingSequence s
      else isVerifyingSequence s \<or> namesIdentify m)"
  by (simp add: onmessage_immediate onmessage_suspended flag_afterAudio)

lemma flag_onDecodeSettled:
  "isVerifyingSequence (onDecodeSettled d k s) =
     (case pending s k of
        None \<Rightarrow> isVerifyingSequence s
      | Some (a, m) \<Rightarrow>
          (case d a of
             None \<Rightarrow> isVerifyingSequence s
           | Some dur \<Rightarrow> isVerifyingSequence s \<or> namesIdentify m))"
  by (simp add: onDecodeSettled_def flag_afterAudio playDecoded_def split: option.splits)

lemma stopsSession_runs_stopSession:
  "stopsSession s e \<Longrightarrow> \<exists>s0. handle d s e = stopSession s0"
  by (auto simp: stopsSession_def handle_def onerror_def onClick_def)

lemma flag_handle:
  "isVerifyingSequence (handle d s e) =
     (if stopsSession s e \<or> e = OnClose then False
      else case e of
             OnMessage c m \<Rightarrow> isVerifyingSequence (onmessage c m s)
           | DecodeSettled k \<Rightarrow> isVerifyingSequence (onDecodeSettled d k s)
           | _ \<Rightarrow> isVerifyingSequence s)"
  by (cases e)
     (simp_all add: handle_def stopsSession_def onClick_def start_defs stop_defs onopen_def
        onerror_def onclose_def onended_def split: option.splits sum.splits)

text \<open>
  C6, as the code has it. The flag is set when the handler of a message naming
  \<open>identifyQuranVerse\<close> reaches its tool-call block: at the receipt when the handler has
  no audio to decode, and when the decode settles with a buffer otherwise; the receipt
  of a message whose handler is suspended, and a decode that throws, leave the flag as it
  is. The events that stop the session (a stream error and a click on the stop button both run
  \<open>stopSession\<close>) and the close of the session clear it. Nothing else changes it: when an
  event clears the flag, the event stopped the session or was the close; when an event
  sets it, the event belongs to a message naming \<open>identifyQuranVerse\<close>.
\<close>

theorem flag_set_at_toolcall_block_cleared_by_stop_or_close:
  "(namesIdentify m \<and> \<not> suspendsAtDecode m s \<longrightarrow>
      isVerifyingSequence (handle d s (OnMessage c m))) \<and>
   (namesIdentify m \<and> pending s k = Some (a, m) \<and> d a \<noteq> None \<longrightarrow>
      isVerifyingSequence (handle d s (DecodeSettled k))) \<and>
   (suspendsAtDecode m s \<longrightarrow>
      isVerifyingSequence (handle d s (OnMessage c m)) = isVerifyingSequence s) \<and>
   (pending s k = Some (a, m) \<and> d a = None \<longrightarrow>
      isVerifyingSequence (handle d s (DecodeSettled k)) = isVerifyingSequence s) \<and>
   (stopsSession s e \<or> e = OnClose \<longrightarrow> \<not> isVerifyingSequence (handle d s e)) \<and>
   (isVerifyingSequence s \<and> \<not> isVerifyingSequence (handle d s e) \<longrightarrow>
      stopsSession s e \<or> e = OnClose) \<and>
   (\<not> isVerifyingSequence s \<and> isVerifyingSequence (handle d s e) \<longrightarrow> isToolCallEvent s e)"
proof -
  have 1: "namesIdentify m \<and> \<not> suspendsAtDecode m s \<longrightarrow>
      isVerifyingSequence (handle d s (OnMessage c m))"
    by (simp add: flag_handle flag_onmessage stopsSession_def)
  have 2: "namesIdentify m \<and> pending s k = Some (a, m) \<and> d a \<noteq> None \<longrightarrow>
      isVerifyingSequence (handle d s (DecodeSettled k))"
    by (auto simp: flag_handle flag_onDecodeSettled stopsSession_def)
  have 3: "stopsSession s e \<or> e = OnClose \<longrightarrow> \<not> isVerifyingSequence (handle d s e)"
    by (simp add: flag_handle)
  have 6: "suspendsAtDecode m s \<longrightarrow>
      isVerifyingSequence (handle d s (OnMessage c m)) = isVerifyingSequence s"
    by (simp add: flag_handle flag_onmessage stopsSession_def)
  have 7: "pending s k = Some (a, m) \<and> d a = None \<longrightarrow>
      isVerifyingSequence (handle d s (DecodeSettled k)) = isVerifyingSequence s"
    by (auto simp: flag_handle flag_onDecodeSettled stopsSession_def)
  have 4: "isVerifyingSequence s \<and> \<not> isVerifyingSequence (handle d s e) \<longrightarrow>
      stopsSession s e \<or> e = OnClose"
    by (cases e)
       (auto simp: flag_handle flag_onmessage flag_onDecodeSettled split: option.splits if_splits)
  have 5: "\<not> isVerifyingSequence s \<and> isVerifyingSequence (handle d s e) \<longrightarrow> isToolCallEvent s e"
    by (cases e)
       (auto simp: flag_handle flag_onmessage flag_onDecodeSettled isToolCallEvent_def
          split: option.splits if_splits)
  from 1 2 3 4 5 6 7 show ?thesis by blast
qed

theorem flag_set_at_toolcall_block_cleared_by_stop_or_close_witness:
  "isVerifyingSequence
     (handle sampleDecoder connected
        (OnMessage 0 (toolCallMessage [identify ''a'' (verse ''Al-Fatiha'' ''1'')]))) \<and>
   \<not> isVerifyingSequence
     (handle sampleDecoder connected
        (OnMessage 0 (vendorMessage (Some ''AAAA'') False
                        (Some [identify ''a'' (verse ''Al-Fatiha'' ''1'')])))) \<and>
   isVerifyingSequence
     (handle sampleDecoder
        (handle sampleDecoder connected
           (OnMessage 0 (vendorMessage (Some ''AAAA'') False
                           (Some [identify ''a'' (verse ''Al-Fatiha'' ''1'')]))))
        (DecodeSettled 0)) \<and>
   \<not> isVerifyingSequence
     (handle sampleDecoder
        (handle sampleDecoder connected
          (OnMessage 0 (toolCallMessage [identify ''a'' (verse ''Al-Fatiha'' ''1'')])))
        OnClose) \<and>
   \<not> isVerifyingSequence
     (handle sampleDecoder
        (handle sampleDecoder connected
          (OnMessage 0 (toolCallMessage [identify ''a'' (verse ''Al-Fatiha'' ''1'')])))
        ButtonClick)"
  using flag_set_at_toolcall_block_cleared_by_stop_or_close [where
      m = "toolCallMessage [identify ''a'' (verse ''Al-Fatiha'' ''1'')]" and s = connected
      and d = sampleDecoder and c = 0 and k = 0 and a = "''AAAA''" and e = OnClose]
  by (simp add: connected_def handler_defs sample_defs)

text \<open>
  The claim as the specification words it fails for a message that names
  \<open>identifyQuranVerse\<close> and also carries an audio payload that does not decode: the
  receipt suspends the handler at line 92 with the flag untouched, and the throw of the
  decode ends the run before line 117.
\<close>

theorem undecodable_audio_keeps_flag_unset:
  "namesIdentify
     (vendorMessage (Some ''!'') False (Some [identify ''a'' (verse ''Al-Fatiha'' ''1'')])) \<and>
   \<not> isVerifyingSequence (run sampleDecoder
        [OnMessage 0
           (vendorMessage (Some ''!'') False (Some [identify ''a'' (verse ''Al-Fatiha'' ''1'')]))]
        connected) \<and>
   \<not> isVerifyingSequence (run sampleDecoder
        [OnMessage 0
           (vendorMessage (Some ''!'') False (Some [identify ''a'' (verse ''Al-Fatiha'' ''1'')])),
         DecodeSettled 0]
        connected)"
  by (simp add: connected_def handler_defs sample_defs namesIdentify_def)

section \<open>The set of playing sources\<close>

lemma sources_ok_playDecoded: "sources_ok s \<Longrightarrow> sources_ok (playDecoded dur s)"
  by (auto simp: sources_ok_def playDecoded_def)

lemma sources_ok_afterAudio: "sources_ok s \<Longrightarrow> sources_ok (afterAudio m s)"
  by (auto simp: sources_ok_def afterAudio_keeps afterAudio_interruption)

lemma sources_ok_frame:
  "sources_ok (s\<lparr>nextStartTimeRef := x, pending := p, nextHandler := h\<rparr>) = sources_ok s"
  "sources_ok (s\<lparr>pending := p\<rparr>) = sources_ok s"
  by (simp_all add: sources_ok_def)

lemma sources_ok_message_events:
  assumes "sources_ok s"
  shows "sources_ok (onmessage c m s)" and "sources_ok (onDecodeSettled d k s)"
  by (rule message_events_keep [where P = sources_ok];
      simp add: sources_ok_frame sources_ok_playDecoded sources_ok_afterAudio assms)+

lemma sources_ok_handle:
  assumes "sources_ok s"
  shows "sources_ok (handle d s e)"
proof (cases "(\<exists>c m. e = OnMessage c m) \<or> (\<exists>k. e = DecodeSettled k)")
  case True
  then show ?thesis using assms by (auto simp: handle_def sources_ok_message_events)
next
  case False
  then have "\<nexists>c m. e = OnMessage c m" and "\<nexists>k. e = DecodeSettled k" by simp_all
  note keeps = handle_other_events [OF this]
  show ?thesis
    using assms keeps(5) [of d s] by (auto simp: sources_ok_def keeps(1,3,4))
qed

lemma sources_ok_run: "sources_ok s \<Longrightarrow> sources_ok (run d es s)"
  by (induction es arbitrary: s) (simp_all add: run_Nil run_Cons sources_ok_handle)

text \<open>
  C8, as the code has it. Membership in the set of playing sources is transient. In every
  state the component reaches, a member of the set is a source that has been started and
  on which \<open>stop()\<close> has not been called. A source leaves the set when its \<open>ended\<close>
  listener runs. When the handler of a message carrying an interruption reaches its
  interruption block (at the receipt when the handler has no audio to decode, and when the
  decode settles with a buffer otherwise, the source for that buffer included), every
  source of the set has \<open>stop()\<close> called, the set becomes empty and the next-start time
  is reset to zero. The receipt of a message whose handler is suspended stops nothing, and
  a decode that throws stops nothing and resets nothing.
\<close>

theorem playback_set_is_transient:
  "sourcesRef (run d es initialApp) \<subseteq> fst ` set (scheduled (run d es initialApp)) \<and>
   sourcesRef (run d es initialApp) \<inter> stoppedSources (run d es initialApp) = {} \<and>
   sourcesRef (handle d s (SourceEnded source)) = sourcesRef s - {source} \<and>
   (interrupted m \<and> \<not> suspendsAtDecode m s \<longrightarrow>
      sourcesRef (handle d s (OnMessage c m)) = {} \<and>
      nextStartTimeRef (handle d s (OnMessage c m)) = 0 \<and>
      stoppedSources (handle d s (OnMessage c m)) = stoppedSources s \<union> sourcesRef s) \<and>
   (interrupted m \<and> pending s k = Some (a, m) \<and> d a \<noteq> None \<longrightarrow>
      sourcesRef (handle d s (DecodeSettled k)) = {} \<and>
      nextStartTimeRef (handle d s (DecodeSettled k)) = 0 \<and>
      stoppedSources (handle d s (DecodeSettled k)) =
        stoppedSources s \<union> insert (nextSource s) (sourcesRef s)) \<and>
   (suspendsAtDecode m s \<longrightarrow>
      sourcesRef (handle d s (OnMessage c m)) = sourcesRef s \<and>
      stoppedSources (handle d s (OnMessage c m)) = stoppedSources s) \<and>
   (pending s k = Some (a, m) \<and> d a = None \<longrightarrow>
      sourcesRef (handle d s (DecodeSettled k)) = sourcesRef s \<and>
      stoppedSources (handle d s (DecodeSettled k)) = stoppedSources s \<and>
      nextStartTimeRef (handle d s (DecodeSettled k)) = nextStartTimeRef s)"
proof -
  have "sources_ok (initialApp :: 'a App)"
    by (simp add: sources_ok_def initialApp_def)
  then have "sources_ok (run d es initialApp)" by (rule sources_ok_run)
  then have 1: "sourcesRef (run d es initialApp) \<subseteq> fst ` set (scheduled (run d es initialApp)) \<and>
      sourcesRef (run d es initialApp) \<inter> stoppedSources (run d es initialApp) = {}"
    by (simp add: sources_ok_def)
  have 2: "sourcesRef (handle d s (SourceEnded source)) = sourcesRef s - {source}"
    by (simp add: handle_def onended_def)
  have 3: "interrupted m \<and> \<not> suspendsAtDecode m s \<longrightarrow>
      sourcesRef (handle d s (OnMessage c m)) = {} \<and>
      nextStartTimeRef (handle d s (OnMessage c m)) = 0 \<and>
      stoppedSources (handle d s (OnMessage c m)) = stoppedSources s \<union> sourcesRef s"
    by (simp add: handle_def onmessage_immediate afterAudio_interruption)
  have 4: "interrupted m \<and> pending s k = Some (a, m) \<and> d a \<noteq> None \<longrightarrow>
      sourcesRef (handle d s (DecodeSettled k)) = {} \<and>
      nextStartTimeRef (handle d s (DecodeSettled k)) = 0 \<and>
      stoppedSources (handle d s (DecodeSettled k)) =
        stoppedSources s \<union> insert (nextSource s) (sourcesRef s)"
    by (auto simp: handle_def onDecodeSettled_plays afterAudio_interruption playDecoded_def)
  have 5: "suspendsAtDecode m s \<longrightarrow>
      sourcesRef (handle d s (OnMessage c m)) = sourcesRef s \<and>
      stoppedSources (handle d s (OnMessage c m)) = stoppedSources s"
    by (simp add: handle_def onmessage_suspended)
  have 6: "pending s k = Some (a, m) \<and> d a = None \<longrightarrow>
      sourcesRef (handle d s (DecodeSettled k)) = sourcesRef s \<and>
      stoppedSources (handle d s (DecodeSettled k)) = stoppedSources s \<and>
      nextStartTimeRef (handle d s (DecodeSettled k)) = nextStartTimeRef s"
    by (auto simp: handle_def onDecodeSettled_throws)
  from 1 have inv1: "sourcesRef (run d es initialApp) \<subseteq> fst ` set (scheduled (run d es initialApp))"
    and inv2: "sourcesRef (run d es initialApp) \<inter> stoppedSources (run d es initialApp) = {}"
    by simp_all
  show ?thesis by (intro conjI inv1 inv2 2 3 4 5 6)
qed

theorem playback_set_is_transient_witness:
  "sourcesRef (run sampleDecoder
      [OnMessage 3 (audioMessage ''AAAA''), OnMessage 4 (audioMessage ''AAAA''),
       DecodeSettled 0, DecodeSettled 1] connected) = {0, 1} \<and>
   sourcesRef (handle sampleDecoder (run sampleDecoder
      [OnMessage 3 (audioMessage ''AAAA''), OnMessage 4 (audioMessage ''AAAA''),
       DecodeSettled 0, DecodeSettled 1] connected) (SourceEnded 0)) = {1} \<and>
   sourcesRef (handle sampleDecoder (run sampleDecoder
      [OnMessage 3 (audioMessage ''AAAA''), OnMessage 4 (audioMessage ''AAAA''),
       DecodeSettled 0, DecodeSettled 1] connected) (OnMessage 9 interruptedMessage)) = {} \<and>
   stoppedSources (handle sampleDecoder (run sampleDecoder
      [OnMessage 3 (audioMessage ''AAAA''), OnMessage 4 (audioMessage ''AAAA''),
       DecodeSettled 0, DecodeSettled 1] connected) (OnMessage 9 interruptedMessage)) = {0, 1} \<and>
   nextStartTimeRef (handle sampleDecoder (run sampleDecoder
      [OnMessage 3 (audioMessage ''AAAA''), OnMessage 4 (audioMessage ''AAAA''),
       DecodeSettled 0, DecodeSettled 1] connected) (OnMessage 9 interruptedMessage)) = 0 \<and>
   sourcesRef (run sampleDecoder
      [ButtonClick, GetUserMediaSettled (Inr ()), ConnectSettled (Inr 7), OnOpen,
       OnMessage 3 (audioMessage ''AAAA''), DecodeSettled 0, OnMessage 4 interruptedMessage,
       OnMessage 5 (audioMessage ''AAAA''), DecodeSettled 1] initialApp) = {1} \<and>
   stoppedSources (run sampleDecoder
      [ButtonClick, GetUserMediaSettled (Inr ()), ConnectSettled (Inr 7), OnOpen,
       OnMessage 3 (audioMessage ''AAAA''), DecodeSettled 0, OnMessage 4 interruptedMessage,
       OnMessage 5 (audioMessage ''AAAA''), DecodeSettled 1] initialApp) = {0}"
  using playback_set_is_transient [where d = sampleDecoder
      and es = "[ButtonClick, GetUserMediaSettled (Inr ()), ConnectSettled (Inr 7), OnOpen,
       OnMessage 3 (audioMessage ''AAAA''), DecodeSettled 0, OnMessage 4 interruptedMessage,
       OnMessage 5 (audioMessage ''AAAA''), DecodeSettled 1]"
      and s = "run sampleDecoder
      [OnMessage 3 (audioMessage ''AAAA''), OnMessage 4 (audioMessage ''AAAA''),
       DecodeSettled 0, DecodeSettled 1] connected"
      and source = 0 and m = interruptedMessage and c = 9 and k = 0 and a = "''AAAA''"]
  by (simp add: connected_def handler_defs sample_defs insert_commute)

text \<open>
  The claim as the specification words it fails for a message that carries an interruption
  and also an audio payload that does not decode: the receipt suspends the handler at line
  92, and the throw of the decode ends the run before line 102. Source 0 stays in the set,
  \<open>stop()\<close> is called on nothing, and the next-start time stays at 9.
\<close>

theorem undecodable_audio_skips_the_interruption:
  "interrupted (vendorMessage (Some ''!'') True None) \<and>
   sourcesRef (run sampleDecoder
      [OnMessage 3 (audioMessage ''AAAA''), DecodeSettled 0,
       OnMessage 9 (vendorMessage (Some ''!'') True None), DecodeSettled 1] connected) = {0} \<and>
   stoppedSources (run sampleDecoder
      [OnMessage 3 (audioMessage ''AAAA''), DecodeSettled 0,
       OnMessage 9 (vendorMessage (Some ''!'') True None), DecodeSettled 1] connected) = {} \<and>
   nextStartTimeRef (run sampleDecoder
      [OnMessage 3 (audioMessage ''AAAA''), DecodeSettled 0,
       OnMessage 9 (vendorMessage (Some ''!'') True None), DecodeSettled 1] connected) = 9"
  by (simp add: connected_def handler_defs sample_defs)

section \<open>Errors and teardown\<close>

text \<open>
  A stream error stores its message and tears the session down through \<open>stopSession\<close>:
  the three references end null, and \<open>close()\<close> has been called on whatever they held.
\<close>

lemma onerror_tears_down:
  "error (onerror s) = Some ''Stream error. This is often caused by network latency.'' \<and>
   appState (onerror s) = IDLE \<and> sessionRef (onerror s) = None \<and>
   audioContextRef (onerror s) = None \<and> outputAudioContextRef (onerror s) = None \<and>
   closedSessions (onerror s) = closedSessions s \<union> set_option (sessionRef s) \<and>
   closedContexts (onerror s) =
     closedContexts s \<union> set_option (audioContextRef s) \<union> set_option (outputAudioContextRef s)"
  by (auto simp: onerror_def stop_defs split: option.splits)

text \<open>
  The catch block of \<open>startSession\<close> stores the message and sets the state to idle, and
  touches nothing else: no reference is cleared and nothing is closed.
\<close>

lemma startSession_catch_closes_nothing:
  "sessionRef (startSession_catch msg s) = sessionRef s \<and>
   audioContextRef (startSession_catch msg s) = audioContextRef s \<and>
   outputAudioContextRef (startSession_catch msg s) = outputAudioContextRef s \<and>
   closedSessions (startSession_catch msg s) = closedSessions s \<and>
   closedContexts (startSession_catch msg s) = closedContexts s"
  by (simp add: startSession_catch_def)

text \<open>
  C5. Every error is surfaced as one message and tears the session down. The stream error
  path does so (lemma \<open>onerror_tears_down\<close>). The start failure path does not: when
  \<open>getUserMedia\<close> has resolved, so that lines 63-64 have created both audio contexts, and
  the connection is then refused, the catch block stores the message and returns to idle
  while both contexts stay referenced and neither has been closed.
\<close>

theorem failed_connect_leaves_audio_contexts_open:
  "error (run sampleDecoder
      [ButtonClick, GetUserMediaSettled (Inr ()), ConnectSettled (Inl ''Connection refused'')]
      initialApp) = Some ''Connection refused'' \<and>
   appState (run sampleDecoder
      [ButtonClick, GetUserMediaSettled (Inr ()), ConnectSettled (Inl ''Connection refused'')]
      initialApp) = IDLE \<and>
   audioContextRef (run sampleDecoder
      [ButtonClick, GetUserMediaSettled (Inr ()), ConnectSettled (Inl ''Connection refused'')]
      initialApp) = Some 0 \<and>
   outputAudioContextRef (run sampleDecoder
      [ButtonClick, GetUserMediaSettled (Inr ()), ConnectSettled (Inl ''Connection refused'')]
      initialApp) = Some 1 \<and>
   closedContexts (run sampleDecoder
      [ButtonClick, GetUserMediaSettled (Inr ()), ConnectSettled (Inl ''Connection refused'')]
      initialApp) = {}"
  by (simp add: handler_defs)

end
